theory Spec2Isabelle
  imports
    Complex_Main
    "HOL-Library.Multiset"
    "HOL-Library.Char_ord"
    "HOL-Library.List_Lexorder"
begin

section \<open>Data model\<close>

text \<open>
  The dashboard works on one pandas data frame. A frame is modelled as the list of its
  rows, in frame order. Only the columns that \<open>app.py\<close> reads are kept. A cell that
  pandas holds as NaN, NaT or None is \<open>None\<close>.

  \<^item> \<open>date\<close> is a \<open>datetime64[ns]\<close> value after \<open>pd.to_datetime\<close>: an integer count of
    nanoseconds since the epoch.
  \<^item> a \<open>datetime.date\<close> is the number of its day, counted from the epoch; the order of
    Python dates is the order of these numbers.
  \<^item> a metric is a finite float, that is a rational number; the infinities are left out.
\<close>

type_synonym timestamp = int
type_synonym pydate = int

record row =
  location :: "string option"
  date :: "timestamp option"
  total_cases :: "rat option"
  total_deaths :: "rat option"
  total_deaths_per_million :: "rat option"
  people_fully_vaccinated_per_hundred :: "rat option"

type_synonym frame = "row list"

text \<open>\<open>Series.dt.date\<close>: the calendar day of a timestamp, the time of day dropped.\<close>

definition dt_date :: "timestamp \<Rightarrow> pydate" where
  "dt_date t = t div 86400000000000"

datatype py_exception = Py_Exception (exc_class: string) (exc_str: string)

section \<open>Loading with a fallback source\<close>

text \<open>
  \<open>load_data\<close> calls \<open>requests\<close> and pandas. These library calls are the parameters of
  the model, each returning either the exception it raises (\<open>Inl\<close>) or its value:
  \<open>requests_get url timeout\<close>, \<open>raise_for_status r\<close>, \<open>text r\<close>,
  \<open>read_csv\<close> on the body, and \<open>to_datetime\<close> for line 25, which reads the column
  \<open>date\<close> of the parsed frame, converts it and stores it back.
  An exception is one that line 27 catches, a subclass of \<open>Exception\<close>.
  The \<open>st.cache_data\<close> decorator is not modelled.
\<close>

record ('resp, 'raw) library =
  requests_get :: "string \<Rightarrow> nat \<Rightarrow> py_exception + 'resp"
  raise_for_status :: "'resp \<Rightarrow> py_exception + unit"
  text_of :: "'resp \<Rightarrow> string"
  read_csv :: "string \<Rightarrow> py_exception + 'raw"
  to_datetime :: "'raw \<Rightarrow> py_exception + frame"

definition urls :: "string list" where
  "urls =
    [''https://covid.ourworldindata.org/data/owid-covid-data.csv'',
     ''https://raw.githubusercontent.com/owid/covid-19-data/master/public/data/owid-covid-data.csv'']"

text \<open>The body of the \<open>try\<close> block, lines 22 to 26, for one url.\<close>

definition try_url :: "('resp, 'raw) library \<Rightarrow> string \<Rightarrow> py_exception + frame" where
  "try_url lib url =
    (case requests_get lib url 60 of
       Inl e \<Rightarrow> Inl e
     | Inr r \<Rightarrow>
        (case raise_for_status lib r of
           Inl e \<Rightarrow> Inl e
         | Inr u \<Rightarrow>
            (case read_csv lib (text_of lib r) of
               Inl e \<Rightarrow> Inl e
             | Inr df \<Rightarrow> to_datetime lib df)))"

text \<open>
  The \<open>for\<close> loop with its \<open>last_error\<close> variable. After the last url the function
  raises \<open>RuntimeError\<close>; the f-string formats \<open>last_error\<close> with \<open>str\<close>.
\<close>

definition str_last_error :: "py_exception option \<Rightarrow> string" where
  "str_last_error last_error = (case last_error of None \<Rightarrow> ''None'' | Some e \<Rightarrow> exc_str e)"

fun load_loop ::
  "('resp, 'raw) library \<Rightarrow> string list \<Rightarrow> py_exception option \<Rightarrow> py_exception + frame" where
  "load_loop lib [] last_error =
     Inl (Py_Exception ''RuntimeError''
           (''Failed to download dataset. Last error: '' @ str_last_error last_error))"
| "load_loop lib (url # rest) last_error =
     (case try_url lib url of
        Inr df \<Rightarrow> Inr df
      | Inl e \<Rightarrow> load_loop lib rest (Some e))"

definition load_data :: "('resp, 'raw) library \<Rightarrow> py_exception + frame" where
  "load_data lib = load_loop lib urls None"

section \<open>Sorting\<close>

text \<open>
  \<open>DataFrame.sort_values\<close> is called with its default \<open>kind='quicksort'\<close>, which pandas
  documents as not stable, and with the default \<open>na_position='last'\<close>. What the call
  guarantees is a permutation of the rows that is ordered by the column, missing cells
  last; the order among rows with equal cells is the algorithm's choice. The model takes
  the sorting function as a parameter \<open>srt\<close> and \<open>sort_values_ok\<close> is its contract.
\<close>

definition na_last_le :: "bool \<Rightarrow> 'v::linorder option \<Rightarrow> 'v option \<Rightarrow> bool" where
  "na_last_le ascending a b =
    (case b of
       None \<Rightarrow> True
     | Some y \<Rightarrow> (case a of None \<Rightarrow> False | Some x \<Rightarrow> if ascending then x \<le> y else y \<le> x))"

definition sort_values_ok ::
  "('a \<Rightarrow> 'v::linorder option) \<Rightarrow> bool \<Rightarrow> ('a list \<Rightarrow> 'a list) \<Rightarrow> bool" where
  "sort_values_ok col ascending srt \<longleftrightarrow>
    (\<forall>df. mset (srt df) = mset df \<and>
          sorted_wrt (\<lambda>r s. na_last_le ascending (col r) (col s)) (srt df))"

text \<open>
  Two sorting functions that meet the contract. The first is an insertion sort that
  keeps rows with equal cells in frame order, what \<open>kind='stable'\<close> would do. The
  second puts rows with equal cells in the reverse of frame order. The default kind,
  numpy's quicksort, exchanges rows that are not neighbours: on the frame with the
  cells 5, 5, 7, 7 used below, a descending \<open>sort_values\<close> returns the rows in the
  reverse of frame order, which is what the second function returns there.
\<close>

fun insert_before :: "('a \<Rightarrow> 'a \<Rightarrow> bool) \<Rightarrow> 'a \<Rightarrow> 'a list \<Rightarrow> 'a list" where
  "insert_before le x [] = [x]"
| "insert_before le x (y # ys) = (if le x y then x # y # ys else y # insert_before le x ys)"

fun insert_after :: "('a \<Rightarrow> 'a \<Rightarrow> bool) \<Rightarrow> 'a \<Rightarrow> 'a list \<Rightarrow> 'a list" where
  "insert_after le x [] = [x]"
| "insert_after le x (y # ys) = (if le y x then y # insert_after le x ys else x # y # ys)"

definition stable_sort_values :: "('a \<Rightarrow> 'v::linorder option) \<Rightarrow> bool \<Rightarrow> 'a list \<Rightarrow> 'a list" where
  "stable_sort_values col ascending df =
     foldr (insert_before (\<lambda>r s. na_last_le ascending (col r) (col s))) df []"

definition tie_reversing_sort_values ::
  "('a \<Rightarrow> 'v::linorder option) \<Rightarrow> bool \<Rightarrow> 'a list \<Rightarrow> 'a list" where
  "tie_reversing_sort_values col ascending df =
     foldr (insert_after (\<lambda>r s. na_last_le ascending (col r) (col s))) df []"

section \<open>Filter and aggregation pipeline\<close>

text \<open>
  \<open>st.sidebar.date_input\<close> returns either one date or a tuple of dates. Line 48
  gives the widget a pair as its value, which makes it a range picker: it then returns
  a tuple, of two dates once both ends are picked, of one date while only the first is.
  Line 54 unpacks a tuple into two names, which raises \<open>ValueError\<close> unless the
  tuple has two elements, and doubles a value that is not a tuple.
\<close>

datatype date_input = Single pydate | Tuple "pydate list"

fun unpack_date_range :: "date_input \<Rightarrow> py_exception + (pydate \<times> pydate)" where
  "unpack_date_range (Single d) = Inr (d, d)"
| "unpack_date_range (Tuple [s, e]) = Inr (s, e)"
| "unpack_date_range (Tuple []) =
     Inl (Py_Exception ''ValueError'' ''not enough values to unpack (expected 2, got 0)'')"
| "unpack_date_range (Tuple [s]) =
     Inl (Py_Exception ''ValueError'' ''not enough values to unpack (expected 2, got 1)'')"
| "unpack_date_range (Tuple (s # e # x # xs)) =
     Inl (Py_Exception ''ValueError'' ''too many values to unpack (expected 2)'')"

text \<open>
  Lines 56 to 60. A comparison with a missing cell is false, so a row with no location
  or no date is never selected.
\<close>

definition filtered_df :: "frame \<Rightarrow> string \<Rightarrow> pydate \<Rightarrow> pydate \<Rightarrow> frame" where
  "filtered_df df selected_country start_date end_date =
    filter (\<lambda>r. location r = Some selected_country \<and>
                (case date r of None \<Rightarrow> False | Some t \<Rightarrow> start_date \<le> dt_date t) \<and>
                (case date r of None \<Rightarrow> False | Some t \<Rightarrow> dt_date t \<le> end_date)) df"

text \<open>
  Line 89. \<open>groupby("location")\<close> drops the rows with no location and orders the groups
  by their key; \<open>.last()\<close> takes, column by column, the last cell of the group that is
  not missing; \<open>reset_index\<close> turns the key back into the column \<open>location\<close>.
\<close>

definition last_valid :: "'v option list \<Rightarrow> 'v option" where
  "last_valid vs = (case filter (\<lambda>v. v \<noteq> None) vs of [] \<Rightarrow> None | w # ws \<Rightarrow> last (w # ws))"

definition group_keys :: "frame \<Rightarrow> string list" where
  "group_keys df = sort (remdups (List.map_filter location df))"

definition groupby_location_last :: "frame \<Rightarrow> frame" where
  "groupby_location_last df =
    map (\<lambda>k. let g = filter (\<lambda>r. location r = Some k) df in
          \<lparr> location = Some k,
            date = last_valid (map date g),
            total_cases = last_valid (map total_cases g),
            total_deaths = last_valid (map total_deaths g),
            total_deaths_per_million = last_valid (map total_deaths_per_million g),
            people_fully_vaccinated_per_hundred =
              last_valid (map people_fully_vaccinated_per_hundred g) \<rparr>)
        (group_keys df)"

definition latest_all :: "(frame \<Rightarrow> frame) \<Rightarrow> frame \<Rightarrow> frame" where
  "latest_all srt df = groupby_location_last (srt df)"

text \<open>
  Lines 92 and 93, with the metric, the number of rows and the excluded locations as
  parameters; \<open>top10\<close> is the instance the program computes.
\<close>

definition dropna_subset :: "(row \<Rightarrow> 'v option) \<Rightarrow> frame \<Rightarrow> frame" where
  "dropna_subset col df = filter (\<lambda>r. col r \<noteq> None) df"

definition topNByMetric ::
  "(frame \<Rightarrow> frame) \<Rightarrow> frame \<Rightarrow> (row \<Rightarrow> rat option) \<Rightarrow> nat \<Rightarrow> string list \<Rightarrow> frame" where
  "topNByMetric srt snapshot metric n excludeLocations =
    take n (srt (filter (\<lambda>r. location r \<notin> set (map Some excludeLocations))
                   (dropna_subset metric snapshot)))"

definition top10 :: "(frame \<Rightarrow> frame) \<Rightarrow> frame \<Rightarrow> frame" where
  "top10 srt snapshot = topNByMetric srt snapshot total_deaths_per_million 10 [''World'']"

text \<open>
  Lines 104 to 108: the three columns are selected, \<open>dropna()\<close> drops every row with a
  missing cell in any of the three, then the excluded locations are removed.
\<close>

definition pairedMetrics ::
  "frame \<Rightarrow> (row \<Rightarrow> rat option) \<Rightarrow> (row \<Rightarrow> rat option) \<Rightarrow> string list
     \<Rightarrow> (rat option \<times> rat option \<times> string option) list" where
  "pairedMetrics snapshot metricX metricY excludeLocations =
    filter (\<lambda>(x, y, l). l \<notin> set (map Some excludeLocations))
      (filter (\<lambda>(x, y, l). x \<noteq> None \<and> y \<noteq> None \<and> l \<noteq> None)
        (map (\<lambda>r. (metricX r, metricY r, location r)) snapshot))"

definition scatter_df :: "frame \<Rightarrow> (rat option \<times> rat option \<times> string option) list" where
  "scatter_df snapshot =
    pairedMetrics snapshot people_fully_vaccinated_per_hundred total_deaths_per_million [''World'']"

section \<open>Formatting the KPI values\<close>

text \<open>
  Lines 75 to 77. \<open>str\<close> of a natural number, the \<open>,\<close> format option (a comma before
  every group of three digits, counted from the right), \<open>int\<close> of a float (truncation
  towards zero) and the \<open>.1f\<close> format (the decimal with one fractional digit nearest
  to the exact value of the float, a tie going to the even digit).
\<close>

definition digit_char :: "nat \<Rightarrow> char" where
  "digit_char n = ''0123456789'' ! (n mod 10)"

function decimal :: "nat \<Rightarrow> string" where
  "decimal n = (if n < 10 then [digit_char n] else decimal (n div 10) @ [digit_char (n mod 10)])"
  by pat_completeness auto
termination
  by (relation "measure id") auto

declare decimal.simps [simp del]

function group_thousands :: "string \<Rightarrow> string" where
  "group_thousands ds =
    (if length ds \<le> 3 then ds
     else group_thousands (take (length ds - 3) ds) @ '','' @ drop (length ds - 3) ds)"
  by pat_completeness auto
termination
  by (relation "measure length") auto

declare group_thousands.simps [simp del]

definition format_int_comma :: "int \<Rightarrow> string" where
  "format_int_comma i = (if i < 0 then ''-'' else []) @ group_thousands (decimal (nat \<bar>i\<bar>))"

definition int_of_float :: "rat \<Rightarrow> int" where
  "int_of_float x = (if 0 \<le> x then \<lfloor>x\<rfloor> else \<lceil>x\<rceil>)"

definition round_half_even :: "rat \<Rightarrow> int" where
  "round_half_even y =
    (let f = \<lfloor>y\<rfloor>; d = y - of_int f in
     if d < 1 / 2 then f
     else if 1 / 2 < d then f + 1
     else if even f then f else f + 1)"

definition format_f1 :: "rat \<Rightarrow> string" where
  "format_f1 x =
    (let t = nat (round_half_even (\<bar>x\<bar> * 10)) in
     (if x < 0 then ''-'' else []) @ decimal (t div 10) @ ''.'' @ [digit_char (t mod 10)])"

datatype metric_kind = Integer_Kind | Percentage_Kind

definition formatMetric :: "rat option \<Rightarrow> metric_kind \<Rightarrow> string" where
  "formatMetric v kind =
    (case kind of
       Integer_Kind \<Rightarrow> (case v of Some x \<Rightarrow> format_int_comma (int_of_float x) | None \<Rightarrow> ''N/A'')
     | Percentage_Kind \<Rightarrow> (case v of Some x \<Rightarrow> format_f1 x | None \<Rightarrow> ''N/A''))"

section \<open>One run of the script\<close>

text \<open>
  Lines 53 to 121, for a loaded frame and the two widget values. The run is the list of
  the elements it puts on the page. \<open>st.stop()\<close> ends the run; an exception ends it
  too. \<open>iloc[-1]\<close> raises \<open>IndexError\<close> on an empty frame.
\<close>

datatype ui_event =
    Warning string
  | Metric string string
  | Area_Chart "(timestamp option \<times> rat option) list"
  | Bar_Chart "(string option \<times> rat option) list"
  | Scatter_Chart "(rat option \<times> rat option \<times> string option) list"
  | Subheader string
  | Dataframe frame

datatype run = Finished "ui_event list" | Stopped "ui_event list" | Raised py_exception

definition iloc_last :: "frame \<Rightarrow> py_exception + row" where
  "iloc_last df =
    (case df of
       [] \<Rightarrow> Inl (Py_Exception ''IndexError'' ''single positional indexer is out-of-bounds'')
     | r # rs \<Rightarrow> Inr (last (r # rs)))"

text \<open>Lines 54 to 60: the date range is unpacked, then the frame is filtered.\<close>

definition select_rows :: "frame \<Rightarrow> string \<Rightarrow> date_input \<Rightarrow> py_exception + frame" where
  "select_rows df selected_country date_range =
    (case unpack_date_range date_range of
       Inl e \<Rightarrow> Inl e
     | Inr (start_date, end_date) \<Rightarrow> Inr (filtered_df df selected_country start_date end_date))"

definition render ::
  "(frame \<Rightarrow> frame) \<Rightarrow> (frame \<Rightarrow> frame) \<Rightarrow> frame \<Rightarrow> string \<Rightarrow> date_input \<Rightarrow> run" where
  "render srt_date srt_deaths df selected_country date_range =
    (case select_rows df selected_country date_range of
       Inl e \<Rightarrow> Raised e
     | Inr filtered \<Rightarrow>
         if filtered = [] then
           Stopped [Warning
             ''No data available for the selected filters. Try a different date range.'']
         else
           (case iloc_last (srt_date filtered) of
              Inl e \<Rightarrow> Raised e
            | Inr latest \<Rightarrow>
               (let snapshot = latest_all srt_date df in
                Finished
                  [Metric ''Total Cases'' (formatMetric (total_cases latest) Integer_Kind),
                   Metric ''Total Deaths'' (formatMetric (total_deaths latest) Integer_Kind),
                   Metric ''Fully Vaccinated (%)''
                     (formatMetric (people_fully_vaccinated_per_hundred latest) Percentage_Kind),
                   Area_Chart (map (\<lambda>r. (date r, total_cases r)) filtered),
                   Bar_Chart (map (\<lambda>r. (location r, total_deaths_per_million r))
                                (top10 srt_deaths snapshot)),
                   Scatter_Chart (scatter_df snapshot),
                   Subheader ''Filtered Data Preview'',
                   Dataframe (take 50 filtered)])))"

section \<open>Notions used in the statements\<close>

text \<open>
  \<open>keeps_ties\<close>: a sorting function is stable when the rows with any one cell value
  come out in the order they went in.
\<close>

definition keeps_ties :: "('a \<Rightarrow> 'v option) \<Rightarrow> ('a list \<Rightarrow> 'a list) \<Rightarrow> bool" where
  "keeps_ties col srt \<longleftrightarrow>
     (\<forall>df v. filter (\<lambda>r. col r = v) (srt df) = filter (\<lambda>r. col r = v) df)"

text \<open>
  \<open>latest_value_of col df l v\<close>: among the rows of location \<open>l\<close>, \<open>v\<close> is the cell
  of column \<open>col\<close> in a row that has this cell and that no other row having it
  follows in date order (a missing date counting as last); \<open>v\<close> is missing when no row
  of \<open>l\<close> has the cell.
\<close>

definition latest_value_of :: "(row \<Rightarrow> 'v option) \<Rightarrow> frame \<Rightarrow> string \<Rightarrow> 'v option \<Rightarrow> bool" where
  "latest_value_of col df l v =
    (case v of
       None \<Rightarrow> (\<forall>r\<in>set df. location r = Some l \<longrightarrow> col r = None)
     | Some x \<Rightarrow>
        (\<exists>r\<in>set df. location r = Some l \<and> col r = Some x \<and>
           (\<forall>s\<in>set df. location s = Some l \<and> col s \<noteq> None \<longrightarrow>
               na_last_le True (date s) (date r))))"

text \<open>
  Thousands grouping described on the number: below 1000 the plain decimal, otherwise
  the grouping of the thousands, a comma, and the last three digits. \<open>digits_value\<close>
  reads a string of digits back as a number.
\<close>

function thousands_grouped :: "nat \<Rightarrow> string" where
  "thousands_grouped n =
    (if n < 1000 then decimal n
     else thousands_grouped (n div 1000) @ '','' @
          [digit_char (n div 100 mod 10), digit_char (n div 10 mod 10), digit_char (n mod 10)])"
  by pat_completeness auto
termination
  by (relation "measure id") auto

declare thousands_grouped.simps [simp del]

definition digit_value :: "char \<Rightarrow> nat" where
  "digit_value c = of_char c - 48"

definition digits_value :: "string \<Rightarrow> nat" where
  "digits_value ds = foldl (\<lambda>a c. 10 * a + digit_value c) 0 ds"

section \<open>Example inputs\<close>

text \<open>
  Rows of four countries and of the aggregate \<open>World\<close>, and two network environments:
  one where only the mirror answers, one where the first url is unreachable and the
  mirror answers with status 503.
\<close>

definition row_a1 :: row where
  "row_a1 = \<lparr> location = Some ''A'', date = Some 0, total_cases = Some 10,
     total_deaths = Some 1, total_deaths_per_million = Some 5,
     people_fully_vaccinated_per_hundred = Some (349 / 4) \<rparr>"

definition row_a2 :: row where
  "row_a2 = \<lparr> location = Some ''A'', date = Some 86400000000000, total_cases = Some 1234567,
     total_deaths = None, total_deaths_per_million = None,
     people_fully_vaccinated_per_hundred = None \<rparr>"

definition row_b1 :: row where
  "row_b1 = \<lparr> location = Some ''B'', date = Some 0, total_cases = Some 7,
     total_deaths = Some 2, total_deaths_per_million = Some 5,
     people_fully_vaccinated_per_hundred = Some 40 \<rparr>"

definition row_world :: row where
  "row_world = \<lparr> location = Some ''World'', date = Some 0, total_cases = Some 17,
     total_deaths = Some 3, total_deaths_per_million = Some 9,
     people_fully_vaccinated_per_hundred = Some 50 \<rparr>"

definition row_c1 :: row where
  "row_c1 = \<lparr> location = Some ''C'', date = Some 0, total_cases = Some 30,
     total_deaths = Some 4, total_deaths_per_million = Some 7,
     people_fully_vaccinated_per_hundred = Some 60 \<rparr>"

definition row_d1 :: row where
  "row_d1 = \<lparr> location = Some ''D'', date = Some 0, total_cases = Some 40,
     total_deaths = Some 5, total_deaths_per_million = Some 7,
     people_fully_vaccinated_per_hundred = Some 70 \<rparr>"

definition mirror_only_library :: "(nat, frame) library" where
  "mirror_only_library =
    \<lparr> requests_get = (\<lambda>url timeout.
         if url = urls ! 1 then Inr 200
         else Inl (Py_Exception ''ConnectionError'' ''primary source unreachable'')),
      raise_for_status = (\<lambda>status.
         if 400 \<le> status \<and> status < 600 then Inl (Py_Exception ''HTTPError'' ''error status'')
         else Inr ()),
      text_of = (\<lambda>status. ''location,date''),
      read_csv = (\<lambda>body. Inr [row_a1]),
      to_datetime = (\<lambda>raw. Inr raw) \<rparr>"

definition offline_library :: "(nat, frame) library" where
  "offline_library =
    \<lparr> requests_get = (\<lambda>url timeout.
         if url = urls ! 1 then Inr 503
         else Inl (Py_Exception ''ConnectionError'' ''primary source unreachable'')),
      raise_for_status = (\<lambda>status.
         if 400 \<le> status \<and> status < 600 then Inl (Py_Exception ''HTTPError'' ''503 Server Error'')
         else Inr ()),
      text_of = (\<lambda>status. ''location,date''),
      read_csv = (\<lambda>body. Inr [row_a1]),
      to_datetime = (\<lambda>raw. Inr raw) \<rparr>"

section \<open>Properties of the sorting contract\<close>

lemma na_last_le_total: "na_last_le asc a b \<or> na_last_le asc b a"
  by (auto simp: na_last_le_def split: option.splits)

lemma na_last_le_trans: "na_last_le asc a b \<Longrightarrow> na_last_le asc b c \<Longrightarrow> na_last_le asc a c"
  by (auto simp: na_last_le_def split: option.splits if_splits)

lemma mset_insert_before: "mset (insert_before le x ys) = add_mset x (mset ys)"
  by (induction ys) auto

lemma mset_insert_after: "mset (insert_after le x ys) = add_mset x (mset ys)"
  by (induction ys) auto

lemma set_insert_before: "set (insert_before le x ys) = insert x (set ys)"
  by (induction ys) auto

lemma set_insert_after: "set (insert_after le x ys) = insert x (set ys)"
  by (induction ys) auto

lemma sorted_insert_before:
  assumes total: "\<And>a b. le a b \<or> le b a"
    and trans: "\<And>a b c. le a b \<Longrightarrow> le b c \<Longrightarrow> le a c"
  shows "sorted_wrt le ys \<Longrightarrow> sorted_wrt le (insert_before le x ys)"
proof (induction ys)
  case Nil
  then show ?case by simp
next
  case (Cons y ys)
  show ?case
  proof (cases "le x y")
    case True
    with Cons.prems show ?thesis by (auto intro: trans)
  next
    case False
    then have "le y x" using total by blast
    with False Cons show ?thesis by (auto simp: set_insert_before)
  qed
qed

lemma sorted_insert_after:
  assumes total: "\<And>a b. le a b \<or> le b a"
    and trans: "\<And>a b c. le a b \<Longrightarrow> le b c \<Longrightarrow> le a c"
  shows "sorted_wrt le ys \<Longrightarrow> sorted_wrt le (insert_after le x ys)"
proof (induction ys)
  case Nil
  then show ?case by simp
next
  case (Cons y ys)
  show ?case
  proof (cases "le y x")
    case True
    with Cons show ?thesis by (auto simp: set_insert_after)
  next
    case False
    then have "le x y" using total by blast
    with False Cons.prems show ?thesis by (auto intro: trans)
  qed
qed

lemma stable_sort_values_ok: "sort_values_ok col asc (stable_sort_values col asc)"
proof -
  let ?le = "\<lambda>r s. na_last_le asc (col r) (col s)"
  have m: "mset (foldr (insert_before ?le) df []) = mset df" for df
    by (induction df) (simp_all add: mset_insert_before)
  have s: "sorted_wrt ?le (foldr (insert_before ?le) df [])" for df
  proof (induction df)
    case Nil
    show ?case by simp
  next
    case (Cons r df)
    have "sorted_wrt ?le (insert_before ?le r (foldr (insert_before ?le) df []))"
      by (rule sorted_insert_before) (use na_last_le_total na_last_le_trans Cons in blast)+
    then show ?case by simp
  qed
  show ?thesis
    unfolding sort_values_ok_def stable_sort_values_def using m s by blast
qed

lemma tie_reversing_sort_values_ok: "sort_values_ok col asc (tie_reversing_sort_values col asc)"
proof -
  let ?le = "\<lambda>r s. na_last_le asc (col r) (col s)"
  have m: "mset (foldr (insert_after ?le) df []) = mset df" for df
    by (induction df) (simp_all add: mset_insert_after)
  have s: "sorted_wrt ?le (foldr (insert_after ?le) df [])" for df
  proof (induction df)
    case Nil
    show ?case by simp
  next
    case (Cons r df)
    have "sorted_wrt ?le (insert_after ?le r (foldr (insert_after ?le) df []))"
      by (rule sorted_insert_after) (use na_last_le_total na_last_le_trans Cons in blast)+
    then show ?case by simp
  qed
  show ?thesis
    unfolding sort_values_ok_def tie_reversing_sort_values_def using m s by blast
qed

lemma sort_values_ok_set: "sort_values_ok col asc srt \<Longrightarrow> set (srt df) = set df"
  unfolding sort_values_ok_def by (metis set_mset_mset)

lemma sort_values_ok_sorted:
  "sort_values_ok col asc srt \<Longrightarrow> sorted_wrt (\<lambda>r s. na_last_le asc (col r) (col s)) (srt df)"
  unfolding sort_values_ok_def by blast

section \<open>The country and date filter\<close>

text \<open>
  C1. A row is in the filtered view exactly when it is a row of the loaded frame, its
  location is the selected country, and its calendar date lies between the start date
  and the end date, both ends included.
\<close>

theorem filter_correct:
  "r \<in> set (filtered_df df c s e) \<longleftrightarrow>
     r \<in> set df \<and> location r = Some c \<and>
     (\<exists>t. date r = Some t \<and> s \<le> dt_date t \<and> dt_date t \<le> e)"
  by (auto simp: filtered_df_def split: option.splits)

text \<open>
  A value that is not a tuple is doubled: for one bare date \<open>d\<close> the range is
  \<open>(d, d)\<close> and the filtered view is made of the rows of the selected country whose
  calendar date is \<open>d\<close>, in frame order.
\<close>

lemma single_date_range:
  "select_rows df c (Single d) =
     Inr (filter (\<lambda>r. location r = Some c \<and>
                      (case date r of None \<Rightarrow> False | Some t \<Rightarrow> dt_date t = d)) df)"
  unfolding select_rows_def filtered_df_def
  by (auto intro!: filter_cong split: option.splits)

lemma short_tuple_raises:
  "select_rows df c (Tuple [d]) =
     Inl (Py_Exception ''ValueError'' ''not enough values to unpack (expected 2, got 1)'')"
  by (simp add: select_rows_def)

text \<open>
  C10. The claim is that a single date \<open>d\<close> from the date-range control is treated as
  the range \<open>(d, d)\<close>, which is also what the comment on line 53 announces. The
  control is a range picker, so its single date is the tuple \<open>(d,)\<close>. That value is a
  tuple, line 54 unpacks it into two names, and the run ends with \<open>ValueError\<close>:
  no filtered view is computed.
\<close>

theorem single_date_tuple_raises:
  "render srt_date srt_deaths df c (Tuple [d]) =
     Raised (Py_Exception ''ValueError'' ''not enough values to unpack (expected 2, got 1)'')"
  by (simp add: render_def select_rows_def)

section \<open>Loading\<close>

lemma try_url_Inr:
  "try_url lib url = Inr ds \<Longrightarrow>
     \<exists>r raw. requests_get lib url 60 = Inr r \<and> raise_for_status lib r = Inr () \<and>
        read_csv lib (text_of lib r) = Inr raw \<and> to_datetime lib raw = Inr ds"
  by (auto simp: try_url_def split: sum.splits)

text \<open>
  C3. When the first url fails, for whatever reason, and the second succeeds,
  \<open>load_data\<close> returns the frame of the second url: the body that \<open>read_csv\<close> parsed
  and whose date column \<open>to_datetime\<close> converted. No exception reaches the caller.
\<close>

theorem load_fallback:
  assumes "try_url lib (urls ! 0) = Inl e" and "try_url lib (urls ! 1) = Inr ds"
  shows "load_data lib = Inr ds \<and>
         (\<exists>r raw. requests_get lib (urls ! 1) 60 = Inr r \<and> raise_for_status lib r = Inr () \<and>
            read_csv lib (text_of lib r) = Inr raw \<and> to_datetime lib raw = Inr ds)"
proof
  from assms show "load_data lib = Inr ds"
    by (simp add: load_data_def urls_def)
  from assms(2) show "\<exists>r raw. requests_get lib (urls ! 1) 60 = Inr r \<and>
      raise_for_status lib r = Inr () \<and> read_csv lib (text_of lib r) = Inr raw \<and>
      to_datetime lib raw = Inr ds"
    by (rule try_url_Inr)
qed

theorem load_fallback_witness:
  "try_url mirror_only_library (urls ! 0) =
      Inl (Py_Exception ''ConnectionError'' ''primary source unreachable'') \<and>
   try_url mirror_only_library (urls ! 1) = Inr [row_a1] \<and>
   load_data mirror_only_library = Inr [row_a1]"
proof -
  have h1: "try_url mirror_only_library (urls ! 0) =
      Inl (Py_Exception ''ConnectionError'' ''primary source unreachable'')"
    by (simp add: try_url_def mirror_only_library_def urls_def)
  have h2: "try_url mirror_only_library (urls ! 1) = Inr [row_a1]"
    by (simp add: try_url_def mirror_only_library_def urls_def)
  from load_fallback [OF h1 h2] h1 h2 show ?thesis by simp
qed

text \<open>
  C4. When both urls fail, \<open>load_data\<close> raises \<open>RuntimeError\<close>, and the message
  carries the text of the exception of the url tried last.
\<close>

theorem load_total_failure:
  assumes "try_url lib (urls ! 0) = Inl e1" and "try_url lib (urls ! 1) = Inl e2"
  shows "load_data lib =
     Inl (Py_Exception ''RuntimeError''
            (''Failed to download dataset. Last error: '' @ exc_str e2))"
  using assms by (simp add: load_data_def urls_def str_last_error_def)

theorem load_total_failure_witness:
  "try_url offline_library (urls ! 0) =
      Inl (Py_Exception ''ConnectionError'' ''primary source unreachable'') \<and>
   try_url offline_library (urls ! 1) = Inl (Py_Exception ''HTTPError'' ''503 Server Error'') \<and>
   load_data offline_library =
     Inl (Py_Exception ''RuntimeError''
            ''Failed to download dataset. Last error: 503 Server Error'')"
proof -
  have h1: "try_url offline_library (urls ! 0) =
      Inl (Py_Exception ''ConnectionError'' ''primary source unreachable'')"
    by (simp add: try_url_def offline_library_def urls_def)
  have h2: "try_url offline_library (urls ! 1) = Inl (Py_Exception ''HTTPError'' ''503 Server Error'')"
    by (simp add: try_url_def offline_library_def urls_def)
  from load_total_failure [OF h1 h2] h1 h2 show ?thesis by simp
qed

section \<open>The empty filtered view\<close>

lemma filtered_df_no_location: "Some c \<notin> location ` set df \<Longrightarrow> filtered_df df c s e = []"
  unfolding filtered_df_def filter_empty_conv by (metis image_eqI)

lemma filtered_df_empty_range: "e < s \<Longrightarrow> filtered_df df c s e = []"
  by (auto simp: filtered_df_def filter_empty_conv split: option.splits)

text \<open>
  C7. When the filter selects no row, in particular when no row has the selected
  location or when the start date is after the end date, the run shows the warning and
  stops there: it raises nothing and puts no metric, chart or table on the page.
\<close>

theorem empty_result_stops:
  assumes "unpack_date_range date_range = Inr (s, e)"
    and "Some c \<notin> location ` set df \<or> e < s \<or> filtered_df df c s e = []"
  shows "render srt_date srt_deaths df c date_range =
     Stopped [Warning
       ''No data available for the selected filters. Try a different date range.'']"
proof -
  from assms(2) have "filtered_df df c s e = []"
    using filtered_df_no_location filtered_df_empty_range by blast
  with assms(1) show ?thesis
    by (simp add: render_def select_rows_def)
qed

theorem empty_result_stops_witness:
  "unpack_date_range (Tuple [0, 1]) = Inr (0, 1) \<and>
   Some ''Wakanda'' \<notin> location ` set [row_a1, row_b1] \<and>
   render (stable_sort_values date True) (stable_sort_values total_deaths_per_million False)
       [row_a1, row_b1] ''Wakanda'' (Tuple [0, 1]) =
     Stopped [Warning
       ''No data available for the selected filters. Try a different date range.'']"
proof -
  have h1: "unpack_date_range (Tuple [0, 1]) = Inr (0, 1)" by simp
  have h2: "Some ''Wakanda'' \<notin> location ` set [row_a1, row_b1]"
    by (simp add: row_a1_def row_b1_def)
  from h2 have h3: "Some ''Wakanda'' \<notin> location ` set [row_a1, row_b1] \<or> (1::int) < 0 \<or>
      filtered_df [row_a1, row_b1] ''Wakanda'' 0 1 = []" by blast
  from empty_result_stops [OF h1 h3] h1 h2 show ?thesis by blast
qed

section \<open>Ranking and scatter data\<close>

lemma sorted_wrt_take_rel: "sorted_wrt P xs \<Longrightarrow> sorted_wrt P (take n xs)"
  by (metis append_take_drop_id sorted_wrt_append)

text \<open>
  C5. The ranking has at most \<open>n\<close> rows, every row of it comes from the snapshot, has
  the metric and is not an excluded location, and the rows are in non-increasing order
  of the metric.
\<close>

theorem top_n_correct:
  assumes "sort_values_ok metric False srt"
  shows "length (topNByMetric srt snapshot metric n excl) \<le> n \<and>
         (\<forall>r\<in>set (topNByMetric srt snapshot metric n excl).
             r \<in> set snapshot \<and> metric r \<noteq> None \<and> location r \<notin> Some ` set excl) \<and>
         sorted_wrt (\<lambda>r s. \<exists>x y. metric r = Some x \<and> metric s = Some y \<and> y \<le> x)
           (topNByMetric srt snapshot metric n excl)"
proof -
  let ?kept = "filter (\<lambda>r. location r \<notin> set (map Some excl)) (dropna_subset metric snapshot)"
  have out: "topNByMetric srt snapshot metric n excl = take n (srt ?kept)"
    by (simp add: topNByMetric_def)
  have mem: "set (srt ?kept) = set ?kept"
    using assms by (rule sort_values_ok_set)
  have "sorted_wrt (\<lambda>r s. na_last_le False (metric r) (metric s)) (srt ?kept)"
    using assms by (rule sort_values_ok_sorted)
  then have "sorted_wrt (\<lambda>r s. \<exists>x y. metric r = Some x \<and> metric s = Some y \<and> y \<le> x) (srt ?kept)"
  proof (rule sorted_wrt_mono_rel [rotated])
    fix r s
    assume "r \<in> set (srt ?kept)" "s \<in> set (srt ?kept)"
      and "na_last_le False (metric r) (metric s)"
    then show "\<exists>x y. metric r = Some x \<and> metric s = Some y \<and> y \<le> x"
      unfolding mem by (auto simp: dropna_subset_def na_last_le_def split: option.splits)
  qed
  then have srt: "sorted_wrt (\<lambda>r s. \<exists>x y. metric r = Some x \<and> metric s = Some y \<and> y \<le> x)
      (take n (srt ?kept))"
    by (rule sorted_wrt_take_rel)
  have mem_out: "\<forall>r\<in>set (take n (srt ?kept)).
      r \<in> set snapshot \<and> metric r \<noteq> None \<and> location r \<notin> Some ` set excl"
  proof
    fix r
    assume "r \<in> set (take n (srt ?kept))"
    moreover have "set (take n (srt ?kept)) \<subseteq> set (srt ?kept)"
      by (rule set_take_subset)
    ultimately have "r \<in> set ?kept" using mem by blast
    then show "r \<in> set snapshot \<and> metric r \<noteq> None \<and> location r \<notin> Some ` set excl"
      by (auto simp: dropna_subset_def)
  qed
  have len: "length (take n (srt ?kept)) \<le> n"
    by simp
  show ?thesis
    unfolding out using len mem_out srt by (intro conjI)
qed

theorem top_n_correct_witness:
  "sort_values_ok total_deaths_per_million False
      (stable_sort_values total_deaths_per_million False) \<and>
   top10 (stable_sort_values total_deaths_per_million False)
      [row_b1, row_a2, row_world, row_a1] = [row_b1, row_a1] \<and>
   length (topNByMetric (stable_sort_values total_deaths_per_million False)
      [row_b1, row_a2, row_world, row_a1] total_deaths_per_million 10 [''World'']) \<le> 10 \<and>
   sorted_wrt (\<lambda>r s. \<exists>x y. total_deaths_per_million r = Some x \<and>
                  total_deaths_per_million s = Some y \<and> y \<le> x)
     (topNByMetric (stable_sort_values total_deaths_per_million False)
        [row_b1, row_a2, row_world, row_a1] total_deaths_per_million 10 [''World''])"
proof -
  have h: "sort_values_ok total_deaths_per_million False
      (stable_sort_values total_deaths_per_million False)"
    by (rule stable_sort_values_ok)
  have ev: "top10 (stable_sort_values total_deaths_per_million False)
      [row_b1, row_a2, row_world, row_a1] = [row_b1, row_a1]"
    by (simp add: top10_def topNByMetric_def dropna_subset_def stable_sort_values_def
        na_last_le_def row_a1_def row_a2_def row_b1_def row_world_def)
  from top_n_correct [OF h] h ev show ?thesis by blast
qed

text \<open>
  C9. On a snapshot, where every row has a location, the scatter data are the triples
  (metricX, metricY, location) of exactly the rows that have both metrics and are not
  an excluded location, in snapshot order.
\<close>

theorem paired_metrics_correct:
  assumes "\<forall>r\<in>set snapshot. location r \<noteq> None"
  shows "pairedMetrics snapshot metricX metricY excl =
     map (\<lambda>r. (metricX r, metricY r, location r))
       (filter (\<lambda>r. metricX r \<noteq> None \<and> metricY r \<noteq> None \<and> location r \<notin> Some ` set excl)
          snapshot)"
  using assms
  by (induction snapshot) (auto simp: pairedMetrics_def)

theorem paired_metrics_correct_witness:
  "None \<notin> set (map location [row_b1, row_a2, row_world, row_a1]) \<and>
   scatter_df [row_b1, row_a2, row_world, row_a1] =
     [(Some 40, Some 5, Some ''B''), (Some (349 / 4), Some 5, Some ''A'')]"
proof -
  have h: "\<forall>r\<in>set [row_b1, row_a2, row_world, row_a1]. location r \<noteq> None"
    by (simp add: row_a1_def row_a2_def row_b1_def row_world_def)
  have "scatter_df [row_b1, row_a2, row_world, row_a1] =
     map (\<lambda>r. (people_fully_vaccinated_per_hundred r, total_deaths_per_million r, location r))
       (filter (\<lambda>r. people_fully_vaccinated_per_hundred r \<noteq> None \<and>
                    total_deaths_per_million r \<noteq> None \<and> location r \<notin> Some ` set [''World''])
          [row_b1, row_a2, row_world, row_a1])"
    unfolding scatter_df_def by (rule paired_metrics_correct [OF h])
  also have "\<dots> = [(Some 40, Some 5, Some ''B''), (Some (349 / 4), Some 5, Some ''A'')]"
    by (simp add: row_a1_def row_a2_def row_b1_def row_world_def del: not_None_eq)
  finally have "scatter_df [row_b1, row_a2, row_world, row_a1] =
     [(Some 40, Some 5, Some ''B''), (Some (349 / 4), Some 5, Some ''A'')]" .
  moreover have "None \<notin> set (map location [row_b1, row_a2, row_world, row_a1])"
    by (simp add: row_a1_def row_a2_def row_b1_def row_world_def)
  ultimately show ?thesis by (intro conjI)
qed

lemma na_last_le_refl: "na_last_le asc a a"
  by (simp add: na_last_le_def split: option.splits)

lemma filter_insert_before:
  "filter (\<lambda>r. col r = v) (insert_before (\<lambda>r s. na_last_le asc (col r) (col s)) x ys) =
     (if col x = v then x # filter (\<lambda>r. col r = v) ys else filter (\<lambda>r. col r = v) ys)"
  by (induction ys) (auto simp: na_last_le_refl)

lemma stable_sort_values_keeps_ties: "keeps_ties col (stable_sort_values col asc)"
proof -
  have "filter (\<lambda>r. col r = v)
          (foldr (insert_before (\<lambda>r s. na_last_le asc (col r) (col s))) df []) =
        filter (\<lambda>r. col r = v) df" for df v
    by (induction df) (simp_all add: filter_insert_before)
  then show ?thesis
    by (simp add: keeps_ties_def stable_sort_values_def)
qed

lemma filter_take_prefix:
  "filter P (take n xs) = take (length (filter P (take n xs))) (filter P xs)"
proof (induction xs arbitrary: n)
  case Nil
  show ?case by simp
next
  case (Cons x xs)
  show ?case
  proof (cases n)
    case 0
    then show ?thesis by simp
  next
    case (Suc m)
    with Cons [of m] show ?thesis by simp
  qed
qed

lemma filter_take_prefix_ex: "\<exists>k. filter P (take n xs) = take k (filter P xs)"
  using filter_take_prefix [of P n xs] by (rule exI)

text \<open>
  With a stable sorting function the rows of the ranking with one metric value are the
  first ones, in snapshot order, of the kept rows with that value.
\<close>

lemma stable_sort_keeps_tie_order:
  assumes "keeps_ties metric srt"
  shows "\<exists>k. filter (\<lambda>r. metric r = Some v) (topNByMetric srt snapshot metric n excl) =
           take k (filter (\<lambda>r. metric r = Some v \<and> location r \<notin> Some ` set excl) snapshot)"
proof -
  let ?kept = "filter (\<lambda>r. location r \<notin> set (map Some excl)) (dropna_subset metric snapshot)"
  let ?P = "\<lambda>r. metric r = Some v"
  obtain k where k: "filter ?P (take n (srt ?kept)) = take k (filter ?P (srt ?kept))"
    using filter_take_prefix_ex by blast
  have same: "filter ?P (srt ?kept) = filter ?P ?kept"
    using assms unfolding keeps_ties_def by blast
  have kept: "filter ?P ?kept =
      filter (\<lambda>r. metric r = Some v \<and> location r \<notin> Some ` set excl) snapshot"
    unfolding dropna_subset_def filter_filter by (rule filter_cong) auto
  have "filter ?P (topNByMetric srt snapshot metric n excl) =
      take k (filter (\<lambda>r. metric r = Some v \<and> location r \<notin> Some ` set excl) snapshot)"
    unfolding topNByMetric_def k same kept by (rule refl)
  then show ?thesis by (rule exI)
qed

lemma sorted_desc_keys_unique:
  fixes k :: "'a \<Rightarrow> 'k::linorder"
  assumes "sorted_wrt (\<lambda>r s. k s \<le> k r) xs" and "sorted_wrt (\<lambda>r s. k s \<le> k r) ys"
    and "mset xs = mset ys"
  shows "map k xs = map k ys"
proof -
  have sx: "sorted (rev (map k xs))"
    using assms(1) by (simp add: sorted_wrt_rev sorted_wrt_map)
  have sy: "sorted (rev (map k ys))"
    using assms(2) by (simp add: sorted_wrt_rev sorted_wrt_map)
  have "mset (map k xs) = mset (map k ys)"
    using assms(3) by (metis mset_map)
  then have m: "mset (rev (map k xs)) = mset (rev (map k ys))"
    by simp
  have "sort (rev (map k ys)) = rev (map k xs)"
    using m sx by (rule properties_for_sort)
  moreover have "sort (rev (map k ys)) = rev (map k ys)"
    using sy by (rule sort_key_id_if_sorted [of "\<lambda>x. x", simplified])
  ultimately have "rev (map k xs) = rev (map k ys)" by simp
  then show ?thesis by simp
qed

lemma mset_take_subseteq: "mset (take n xs) \<subseteq># mset xs"
proof -
  have "mset xs = mset (take n xs) + mset (drop n xs)"
    by (metis append_take_drop_id mset_append)
  then show ?thesis by simp
qed

lemma sorted_present_desc:
  assumes "sorted_wrt (\<lambda>r s. na_last_le False (metric r) (metric s)) xs"
    and "\<forall>r\<in>set xs. metric r \<noteq> None"
  shows "sorted_wrt (\<lambda>r s. the (metric s) \<le> the (metric r)) xs"
  using assms(1)
proof (rule sorted_wrt_mono_rel [rotated])
  fix r s
  assume "r \<in> set xs" "s \<in> set xs" and "na_last_le False (metric r) (metric s)"
  with assms(2) show "the (metric s) \<le> the (metric r)"
    by (auto simp: na_last_le_def split: option.splits)
qed

lemma map_present: "\<forall>r\<in>set xs. metric r \<noteq> None \<Longrightarrow> map metric xs = map Some (map (\<lambda>r. the (metric r)) xs)"
  by (induction xs) auto

text \<open>
  C6, as amended. Whatever order the sort gives to rows with equal metric values, the
  ranking shows the same sequence of metric values as it would after a stable sort, and
  the rows it shows with one value are rows of the snapshot that have this value, the
  metric present and the location not excluded. Only the order among rows of equal
  value is left open.
\<close>

theorem top_n_ties_up_to_order:
  assumes ok: "sort_values_ok metric False srt"
  shows "map metric (topNByMetric srt snapshot metric n excl) =
           map metric (topNByMetric (stable_sort_values metric False) snapshot metric n excl) \<and>
         mset (filter (\<lambda>r. metric r = Some v) (topNByMetric srt snapshot metric n excl)) \<subseteq>#
           mset (filter (\<lambda>r. metric r = Some v \<and> location r \<notin> Some ` set excl) snapshot)"
proof -
  let ?kept = "filter (\<lambda>r. location r \<notin> set (map Some excl)) (dropna_subset metric snapshot)"
  let ?st = "stable_sort_values metric False"
  let ?k = "\<lambda>r. the (metric r)"
  have ok': "sort_values_ok metric False ?st"
    by (rule stable_sort_values_ok)
  have kept: "\<forall>r\<in>set ?kept. metric r \<noteq> None"
    by (simp add: dropna_subset_def)
  have px: "\<forall>r\<in>set (srt ?kept). metric r \<noteq> None"
    using kept sort_values_ok_set [OF ok, of ?kept] by simp
  have py: "\<forall>r\<in>set (?st ?kept). metric r \<noteq> None"
    using kept sort_values_ok_set [OF ok', of ?kept] by simp
  have sx: "sorted_wrt (\<lambda>r s. ?k s \<le> ?k r) (srt ?kept)"
    using sort_values_ok_sorted [OF ok] px by (rule sorted_present_desc)
  have sy: "sorted_wrt (\<lambda>r s. ?k s \<le> ?k r) (?st ?kept)"
    using sort_values_ok_sorted [OF ok'] py by (rule sorted_present_desc)
  have mx: "mset (srt ?kept) = mset ?kept"
    using ok unfolding sort_values_ok_def by blast
  have my: "mset (?st ?kept) = mset ?kept"
    using ok' unfolding sort_values_ok_def by blast
  have "map ?k (srt ?kept) = map ?k (?st ?kept)"
    using sx sy by (rule sorted_desc_keys_unique) (simp only: mx my)
  then have "map metric (srt ?kept) = map metric (?st ?kept)"
    using map_present [OF px] map_present [OF py] by simp
  then have "take n (map metric (srt ?kept)) = take n (map metric (?st ?kept))"
    by simp
  then have vals: "map metric (topNByMetric srt snapshot metric n excl) =
           map metric (topNByMetric ?st snapshot metric n excl)"
    unfolding topNByMetric_def take_map .
  have "mset (take n (srt ?kept)) \<subseteq># mset (srt ?kept)"
    by (rule mset_take_subseteq)
  then have "mset (take n (srt ?kept)) \<subseteq># mset ?kept"
    by (simp only: mx)
  then have "filter_mset (\<lambda>r. metric r = Some v) (mset (take n (srt ?kept))) \<subseteq>#
      filter_mset (\<lambda>r. metric r = Some v) (mset ?kept)"
    by (rule multiset_filter_mono)
  then have fsub: "mset (filter (\<lambda>r. metric r = Some v) (take n (srt ?kept))) \<subseteq>#
      mset (filter (\<lambda>r. metric r = Some v) ?kept)"
    by (simp only: mset_filter)
  have eq: "filter (\<lambda>r. metric r = Some v) ?kept =
      filter (\<lambda>r. metric r = Some v \<and> location r \<notin> Some ` set excl) snapshot"
    unfolding dropna_subset_def filter_filter by (rule filter_cong) auto
  have sub: "mset (filter (\<lambda>r. metric r = Some v)
        (topNByMetric srt snapshot metric n excl)) \<subseteq>#
      mset (filter (\<lambda>r. metric r = Some v \<and> location r \<notin> Some ` set excl) snapshot)"
    unfolding topNByMetric_def using fsub by (simp only: eq)
  from vals sub show ?thesis by (rule conjI)
qed

theorem top_n_ties_up_to_order_witness:
  "sort_values_ok total_deaths_per_million False
      (tie_reversing_sort_values total_deaths_per_million False) \<and>
   map total_deaths_per_million
      (topNByMetric (tie_reversing_sort_values total_deaths_per_million False)
         [row_a1, row_b1, row_c1, row_d1] total_deaths_per_million 10 [''World'']) =
   map total_deaths_per_million
      (topNByMetric (stable_sort_values total_deaths_per_million False)
         [row_a1, row_b1, row_c1, row_d1] total_deaths_per_million 10 [''World'']) \<and>
   mset (filter (\<lambda>r. total_deaths_per_million r = Some 7)
      (topNByMetric (tie_reversing_sort_values total_deaths_per_million False)
         [row_a1, row_b1, row_c1, row_d1] total_deaths_per_million 10 [''World''])) \<subseteq>#
   mset (filter (\<lambda>r. total_deaths_per_million r = Some 7 \<and>
                     location r \<notin> Some ` set [''World''])
      [row_a1, row_b1, row_c1, row_d1]) \<and>
   top10 (stable_sort_values total_deaths_per_million False)
       [row_a1, row_b1, row_c1, row_d1] = [row_c1, row_d1, row_a1, row_b1]"
proof -
  have h: "sort_values_ok total_deaths_per_million False
      (tie_reversing_sort_values total_deaths_per_million False)"
    by (rule tie_reversing_sort_values_ok)
  have ev: "top10 (stable_sort_values total_deaths_per_million False)
       [row_a1, row_b1, row_c1, row_d1] = [row_c1, row_d1, row_a1, row_b1]"
    by (simp add: top10_def topNByMetric_def dropna_subset_def stable_sort_values_def
        na_last_le_def row_a1_def row_b1_def row_c1_def row_d1_def)
  from top_n_ties_up_to_order [OF h, of _ _ _ "7"] h ev show ?thesis by (intro conjI) blast+
qed

text \<open>
  C6, as stated, says that rows with equal metric values keep their snapshot order. In
  the snapshot below the rows have the values 5, 5, 7, 7. The ranking is the snapshot
  reversed: the two rows with 7 have changed places, and so have the two rows with 5.
\<close>

theorem ties_reversed_counterexample:
  "sort_values_ok total_deaths_per_million False
      (tie_reversing_sort_values total_deaths_per_million False) \<and>
   total_deaths_per_million row_a1 = total_deaths_per_million row_b1 \<and>
   total_deaths_per_million row_c1 = total_deaths_per_million row_d1 \<and>
   top10 (tie_reversing_sort_values total_deaths_per_million False)
       [row_a1, row_b1, row_c1, row_d1] = [row_d1, row_c1, row_b1, row_a1]"
proof -
  have "top10 (tie_reversing_sort_values total_deaths_per_million False)
       [row_a1, row_b1, row_c1, row_d1] = [row_d1, row_c1, row_b1, row_a1]"
    by (simp add: top10_def topNByMetric_def dropna_subset_def tie_reversing_sort_values_def
        na_last_le_def row_a1_def row_b1_def row_c1_def row_d1_def)
  moreover have "total_deaths_per_million row_a1 = total_deaths_per_million row_b1"
    by (simp add: row_a1_def row_b1_def)
  moreover have "total_deaths_per_million row_c1 = total_deaths_per_million row_d1"
    by (simp add: row_c1_def row_d1_def)
  moreover have "sort_values_ok total_deaths_per_million False
      (tie_reversing_sort_values total_deaths_per_million False)"
    by (rule tie_reversing_sort_values_ok)
  ultimately show ?thesis by (intro conjI)
qed

section \<open>The latest snapshot per location\<close>

lemma sorted_wrt_last_greatest:
  assumes "sorted_wrt le ys" and "s \<in> set ys" and refl: "\<And>a. le a a"
  shows "le s (last ys)"
proof -
  from assms(2) obtain i where i: "i < length ys" "ys ! i = s"
    by (auto simp: in_set_conv_nth)
  then have ne: "ys \<noteq> []" by auto
  show ?thesis
  proof (cases "i = length ys - 1")
    case True
    with i ne show ?thesis by (simp add: last_conv_nth refl)
  next
    case False
    with i have "i < length ys - 1" by simp
    moreover from ne have "length ys - 1 < length ys" by simp
    ultimately have "le (ys ! i) (ys ! (length ys - 1))"
      using assms(1) by (rule sorted_wrt_nth_less [rotated])
    with i ne show ?thesis by (simp add: last_conv_nth)
  qed
qed

lemma last_valid_alt:
  "last_valid vs =
     (if filter (\<lambda>v. v \<noteq> None) vs = [] then None else last (filter (\<lambda>v. v \<noteq> None) vs))"
  by (simp add: last_valid_def split: list.splits)

lemma last_valid_None: "last_valid (map col g) = None \<longleftrightarrow> (\<forall>r\<in>set g. col r = None)"
proof -
  have eq: "filter (\<lambda>v. v \<noteq> None) (map col g) = map col (filter (\<lambda>r. col r \<noteq> None) g)"
    by (simp add: filter_map comp_def)
  show ?thesis
  proof (cases "filter (\<lambda>r. col r \<noteq> None) g")
    case Nil
    then show ?thesis
      unfolding last_valid_def eq by (simp add: filter_empty_conv)
  next
    case (Cons y ys)
    then have "last (y # ys) \<in> set (filter (\<lambda>r. col r \<noteq> None) g)"
      by (metis last_in_set list.distinct(1))
    then have a: "col (last (y # ys)) \<noteq> None" and b: "last (y # ys) \<in> set g"
      by simp_all
    have "last_valid (map col g) = col (last (y # ys))"
      unfolding last_valid_def eq Cons by (simp add: last_map)
    with a b show ?thesis by metis
  qed
qed

lemma last_valid_Some:
  assumes "sorted_wrt (\<lambda>r s. na_last_le True (date r) (date s)) g"
    and "last_valid (map col g) = Some x"
  shows "\<exists>r\<in>set g. col r = Some x \<and>
           (\<forall>s\<in>set g. col s \<noteq> None \<longrightarrow> na_last_le True (date s) (date r))"
proof -
  let ?ys = "filter (\<lambda>r. col r \<noteq> None) g"
  have eq: "filter (\<lambda>v. v \<noteq> None) (map col g) = map col ?ys"
    by (simp add: filter_map comp_def)
  from assms(2) have ne: "?ys \<noteq> []"
    unfolding last_valid_alt eq by (auto split: if_splits)
  then have lv: "last_valid (map col g) = col (last ?ys)"
    unfolding last_valid_alt eq by (simp add: last_map)
  have mem: "last ?ys \<in> set ?ys"
    using ne by (rule last_in_set)
  have srt: "sorted_wrt (\<lambda>r s. na_last_le True (date r) (date s)) ?ys"
    using assms(1) by (rule sorted_wrt_filter)
  have "\<forall>s\<in>set g. col s \<noteq> None \<longrightarrow> na_last_le True (date s) (date (last ?ys))"
  proof (intro ballI impI)
    fix s
    assume "s \<in> set g" "col s \<noteq> None"
    then have "s \<in> set ?ys" by simp
    with srt show "na_last_le True (date s) (date (last ?ys))"
      by (rule sorted_wrt_last_greatest) (rule na_last_le_refl)
  qed
  moreover from mem have "last ?ys \<in> set g" by simp
  moreover from lv assms(2) have "col (last ?ys) = Some x" by simp
  ultimately show ?thesis by blast
qed

lemma latest_value_of_last_valid:
  assumes ok: "sort_values_ok date True srt"
  shows "latest_value_of col df l
           (last_valid (map col (filter (\<lambda>r. location r = Some l) (srt df))))"
proof -
  let ?g = "filter (\<lambda>r. location r = Some l) (srt df)"
  have set_g: "set ?g = {r \<in> set df. location r = Some l}"
    using sort_values_ok_set [OF ok] by auto
  have srt_g: "sorted_wrt (\<lambda>r s. na_last_le True (date r) (date s)) ?g"
    using sort_values_ok_sorted [OF ok] by (rule sorted_wrt_filter)
  show ?thesis
  proof (cases "last_valid (map col ?g)")
    case None
    then have "\<forall>r\<in>set ?g. col r = None" by (simp add: last_valid_None)
    then have "\<forall>r\<in>set df. location r = Some l \<longrightarrow> col r = None"
      unfolding set_g by blast
    with None show ?thesis by (simp add: latest_value_of_def)
  next
    case (Some x)
    from last_valid_Some [OF srt_g Some]
    have "\<exists>r\<in>set df. location r = Some l \<and> col r = Some x \<and>
           (\<forall>s\<in>set df. location s = Some l \<and> col s \<noteq> None \<longrightarrow>
               na_last_le True (date s) (date r))"
      unfolding set_g by blast
    with Some show ?thesis by (simp add: latest_value_of_def)
  qed
qed

lemma set_map_filter_location:
  "l \<in> set (List.map_filter location df) \<longleftrightarrow> Some l \<in> location ` set df"
  by (induction df) (auto simp: List.map_filter_simps split: option.splits)

lemma set_group_keys: "l \<in> set (group_keys df) \<longleftrightarrow> Some l \<in> location ` set df"
  by (simp add: group_keys_def set_map_filter_location)

lemma distinct_group_keys: "distinct (group_keys df)"
  by (simp add: group_keys_def)

lemma filter_eq_distinct: "distinct ks \<Longrightarrow> l \<in> set ks \<Longrightarrow> filter (\<lambda>k. k = l) ks = [l]"
  by (induction ks) (auto simp: filter_empty_conv)

lemma filter_location_groupby:
  assumes "l \<in> set (group_keys df)"
  shows "filter (\<lambda>r. location r = Some l) (groupby_location_last df) =
    [\<lparr> location = Some l,
       date = last_valid (map date (filter (\<lambda>r. location r = Some l) df)),
       total_cases = last_valid (map total_cases (filter (\<lambda>r. location r = Some l) df)),
       total_deaths = last_valid (map total_deaths (filter (\<lambda>r. location r = Some l) df)),
       total_deaths_per_million =
         last_valid (map total_deaths_per_million (filter (\<lambda>r. location r = Some l) df)),
       people_fully_vaccinated_per_hundred =
         last_valid (map people_fully_vaccinated_per_hundred
                       (filter (\<lambda>r. location r = Some l) df)) \<rparr>]"
proof -
  have "filter (\<lambda>k. k = l) (group_keys df) = [l]"
    using distinct_group_keys assms by (rule filter_eq_distinct)
  then show ?thesis
    unfolding groupby_location_last_def by (simp add: filter_map comp_def Let_def)
qed

text \<open>
  C2, as amended. For every location of the frame the snapshot has exactly one row. Its
  date is the greatest date among the rows of the location, and each metric of the row
  is the latest present value of that metric among the rows of the location.
\<close>

theorem snapshot_correct:
  assumes ok: "sort_values_ok date True srt" and l: "Some l \<in> location ` set df"
  shows "\<exists>out. filter (\<lambda>r. location r = Some l) (latest_all srt df) = [out] \<and>
           latest_value_of date df l (date out) \<and>
           (\<forall>r\<in>set df. \<forall>t. location r = Some l \<and> date r = Some t \<longrightarrow>
               (\<exists>t'. date out = Some t' \<and> t \<le> t')) \<and>
           latest_value_of total_cases df l (total_cases out) \<and>
           latest_value_of total_deaths df l (total_deaths out) \<and>
           latest_value_of total_deaths_per_million df l (total_deaths_per_million out) \<and>
           latest_value_of people_fully_vaccinated_per_hundred df l
             (people_fully_vaccinated_per_hundred out)"
proof -
  let ?g = "filter (\<lambda>r. location r = Some l) (srt df)"
  let ?out = "\<lparr> location = Some l,
       date = last_valid (map date ?g),
       total_cases = last_valid (map total_cases ?g),
       total_deaths = last_valid (map total_deaths ?g),
       total_deaths_per_million = last_valid (map total_deaths_per_million ?g),
       people_fully_vaccinated_per_hundred =
         last_valid (map people_fully_vaccinated_per_hundred ?g) \<rparr>"
  have "set (srt df) = set df"
    using ok by (rule sort_values_ok_set)
  with l have "l \<in> set (group_keys (srt df))"
    by (simp add: set_group_keys)
  then have one: "filter (\<lambda>r. location r = Some l) (latest_all srt df) = [?out]"
    unfolding latest_all_def by (rule filter_location_groupby)
  have d: "latest_value_of date df l (date ?out)"
    using latest_value_of_last_valid [OF ok, of date df l] by simp
  have dmax: "\<forall>r\<in>set df. \<forall>t. location r = Some l \<and> date r = Some t \<longrightarrow>
               (\<exists>t'. date ?out = Some t' \<and> t \<le> t')"
  proof (intro ballI allI impI)
    fix r t
    assume r: "r \<in> set df" and "location r = Some l \<and> date r = Some t"
    then have lr: "location r = Some l" and dr: "date r = Some t" by simp_all
    show "\<exists>t'. date ?out = Some t' \<and> t \<le> t'"
    proof (cases "date ?out")
      case None
      with d r lr dr show ?thesis
        by (auto simp: latest_value_of_def)
    next
      case (Some t')
      with d have "\<exists>r'\<in>set df. location r' = Some l \<and> date r' = Some t' \<and>
           (\<forall>s\<in>set df. location s = Some l \<and> date s \<noteq> None \<longrightarrow>
               na_last_le True (date s) (date r'))"
        by (simp add: latest_value_of_def del: not_None_eq)
      then obtain r' :: row where r': "location r' = Some l \<and> date r' = Some t' \<and>
           (\<forall>s\<in>set df. location s = Some l \<and> date s \<noteq> None \<longrightarrow>
               na_last_le True (date s) (date r'))"
        by (rule bexE)
      from r' have "location r = Some l \<and> date r \<noteq> None \<longrightarrow>
          na_last_le True (date r) (date r')"
        using r by (elim conjE bspec)
      with r' lr dr have "na_last_le True (Some t) (Some t')"
        by simp
      then have "t \<le> t'" by (simp add: na_last_le_def)
      with Some show ?thesis by simp
    qed
  qed
  have c: "latest_value_of total_cases df l (total_cases ?out)"
    using latest_value_of_last_valid [OF ok, of total_cases df l] by simp
  have td: "latest_value_of total_deaths df l (total_deaths ?out)"
    using latest_value_of_last_valid [OF ok, of total_deaths df l] by simp
  have pm: "latest_value_of total_deaths_per_million df l (total_deaths_per_million ?out)"
    using latest_value_of_last_valid [OF ok, of total_deaths_per_million df l] by simp
  have fv: "latest_value_of people_fully_vaccinated_per_hundred df l
      (people_fully_vaccinated_per_hundred ?out)"
    using latest_value_of_last_valid [OF ok, of people_fully_vaccinated_per_hundred df l]
    by simp
  from one d dmax c td pm fv show ?thesis
    by (intro exI [of _ ?out] conjI)
qed

text \<open>Every row of the snapshot has a location, the key of its group.\<close>

lemma latest_all_has_location: "\<forall>r\<in>set (latest_all srt df). location r \<noteq> None"
  by (simp add: latest_all_def groupby_location_last_def Let_def)

text \<open>
  C2, as stated, also says that the row of the snapshot is one of the original rows.
  \<open>.last()\<close> works column by column: with a latest row that misses metrics, the
  snapshot row takes them from an earlier row and is none of the original rows.
\<close>

theorem snapshot_row_not_original_counterexample:
  "sort_values_ok date True (stable_sort_values date True) \<and>
   latest_all (stable_sort_values date True) [row_a1, row_a2] =
     [\<lparr> location = Some ''A'', date = Some 86400000000000, total_cases = Some 1234567,
        total_deaths = Some 1, total_deaths_per_million = Some 5,
        people_fully_vaccinated_per_hundred = Some (349 / 4) \<rparr>] \<and>
   \<lparr> location = Some ''A'', date = Some 86400000000000, total_cases = Some 1234567,
     total_deaths = Some 1, total_deaths_per_million = Some 5,
     people_fully_vaccinated_per_hundred = Some (349 / 4) \<rparr> \<notin> set [row_a1, row_a2]"
proof -
  have "latest_all (stable_sort_values date True) [row_a1, row_a2] =
     [\<lparr> location = Some ''A'', date = Some 86400000000000, total_cases = Some 1234567,
        total_deaths = Some 1, total_deaths_per_million = Some 5,
        people_fully_vaccinated_per_hundred = Some (349 / 4) \<rparr>]"
    by (simp add: latest_all_def stable_sort_values_def na_last_le_def
        groupby_location_last_def group_keys_def List.map_filter_simps last_valid_def
        row_a1_def row_a2_def del: not_None_eq)
  moreover have "\<lparr> location = Some ''A'', date = Some 86400000000000,
     total_cases = Some 1234567, total_deaths = Some 1, total_deaths_per_million = Some 5,
     people_fully_vaccinated_per_hundred = Some (349 / 4) \<rparr> \<notin> set [row_a1, row_a2]"
    by (simp add: row_a1_def row_a2_def)
  ultimately show ?thesis
    using stable_sort_values_ok by blast
qed

theorem snapshot_correct_witness:
  "sort_values_ok date True (stable_sort_values date True) \<and>
   Some ''A'' \<in> location ` set [row_b1, row_a2, row_a1] \<and>
   (\<exists>out. filter (\<lambda>r. location r = Some ''A'')
            (latest_all (stable_sort_values date True) [row_b1, row_a2, row_a1]) = [out] \<and>
           latest_value_of date [row_b1, row_a2, row_a1] ''A'' (date out) \<and>
           (\<forall>r\<in>set [row_b1, row_a2, row_a1]. \<forall>t. location r = Some ''A'' \<and> date r = Some t \<longrightarrow>
               (\<exists>t'. date out = Some t' \<and> t \<le> t')) \<and>
           latest_value_of total_cases [row_b1, row_a2, row_a1] ''A'' (total_cases out) \<and>
           latest_value_of total_deaths [row_b1, row_a2, row_a1] ''A'' (total_deaths out) \<and>
           latest_value_of total_deaths_per_million [row_b1, row_a2, row_a1] ''A''
             (total_deaths_per_million out) \<and>
           latest_value_of people_fully_vaccinated_per_hundred [row_b1, row_a2, row_a1] ''A''
             (people_fully_vaccinated_per_hundred out))"
proof -
  have h1: "sort_values_ok date True (stable_sort_values date True)"
    by (rule stable_sort_values_ok)
  have h2: "Some ''A'' \<in> location ` set [row_b1, row_a2, row_a1]"
    by (simp add: row_a1_def)
  from snapshot_correct [OF h1 h2] h1 h2 show ?thesis by (intro conjI)
qed

section \<open>Formatting\<close>

lemma format_integer_example: "formatMetric (Some 1234567) Integer_Kind = ''1,234,567''"
  by (simp add: formatMetric_def format_int_comma_def int_of_float_def decimal.simps
      group_thousands.simps digit_char_def)

lemma floor_example: "\<lfloor>1745 / 2 :: rat\<rfloor> = 872"
  by (rule floor_unique) simp_all

lemma round_example: "round_half_even (1745 / 2) = 872"
  by (simp add: round_half_even_def Let_def floor_example)

lemma format_percentage_example: "formatMetric (Some (349 / 4)) Percentage_Kind = ''87.2''"
  by (simp add: formatMetric_def format_f1_def Let_def round_example decimal.simps digit_char_def)

lemma round_half_even_nearest:
  "\<bar>of_int (round_half_even y) - y\<bar> < 1 / 2 \<or>
   (\<bar>of_int (round_half_even y) - y\<bar> = 1 / 2 \<and> even (round_half_even y))"
proof -
  have lo: "of_int \<lfloor>y\<rfloor> \<le> y" and hi: "y < of_int \<lfloor>y\<rfloor> + 1"
    by linarith+
  show ?thesis
  proof (cases "y - of_int \<lfloor>y\<rfloor> < 1 / 2")
    case True
    with lo show ?thesis by (simp add: round_half_even_def Let_def)
  next
    case False
    note nlt = this
    show ?thesis
    proof (cases "1 / 2 < y - of_int \<lfloor>y\<rfloor>")
      case True
      with hi nlt show ?thesis by (simp add: round_half_even_def Let_def)
    next
      case False
      with nlt have eq: "y - of_int \<lfloor>y\<rfloor> = 1 / 2" by linarith
      show ?thesis
      proof (cases "even \<lfloor>y\<rfloor>")
        case True
        with eq show ?thesis by (simp add: round_half_even_def Let_def)
      next
        case False
        have "\<bar>of_int (\<lfloor>y\<rfloor> + 1) - y\<bar> = 1 / 2" using eq by simp
        with False eq show ?thesis by (simp add: round_half_even_def Let_def)
      qed
    qed
  qed
qed

lemma round_half_even_nonneg: "0 \<le> y \<Longrightarrow> 0 \<le> round_half_even y"
  by (simp add: round_half_even_def Let_def)


lemma decimal_not_Nil: "decimal n \<noteq> []"
  by (subst decimal.simps) simp

lemma decimal_small: "n < 1000 \<Longrightarrow> length (decimal n) \<le> 3"
  by (simp add: decimal.simps [of n] decimal.simps [of "n div 10"]
      decimal.simps [of "n div 10 div 10"])

lemma decimal_large:
  assumes "1000 \<le> n"
  shows "decimal n = decimal (n div 1000) @
     [digit_char (n div 100 mod 10), digit_char (n div 10 mod 10), digit_char (n mod 10)]"
proof -
  have a: "\<not> n < 10" and b: "\<not> n div 10 < 10" and c: "\<not> n div 10 div 10 < 10"
    using assms by simp_all
  have d: "n div 10 div 10 = n div 100" and e: "n div 10 div 10 div 10 = n div 1000"
    and f: "n div 100 div 10 = n div 1000"
    by (simp_all add: div_mult2_eq [symmetric])
  have "decimal n = decimal (n div 10) @ [digit_char (n mod 10)]"
    using a by (subst decimal.simps) simp
  also have "decimal (n div 10) = decimal (n div 10 div 10) @ [digit_char (n div 10 mod 10)]"
    using b by (subst decimal.simps) simp
  also have "decimal (n div 10 div 10) =
      decimal (n div 10 div 10 div 10) @ [digit_char (n div 10 div 10 mod 10)]"
    using c by (subst decimal.simps) simp
  finally show ?thesis by (simp add: d e f)
qed

lemma group_thousands_decimal: "group_thousands (decimal n) = thousands_grouped n"
proof (induction n rule: thousands_grouped.induct)
  case (1 n)
  show ?case
  proof (cases "n < 1000")
    case True
    then have "length (decimal n) \<le> 3" by (rule decimal_small)
    then have "group_thousands (decimal n) = decimal n"
      by (subst group_thousands.simps) simp
    with True show ?thesis
      by (subst thousands_grouped.simps) simp
  next
    case False
    then have big: "1000 \<le> n" by simp
    let ?last3 = "[digit_char (n div 100 mod 10), digit_char (n div 10 mod 10),
      digit_char (n mod 10)]"
    have dec: "decimal n = decimal (n div 1000) @ ?last3"
      using big by (rule decimal_large)
    have len: "\<not> length (decimal n) \<le> 3"
      using decimal_not_Nil [of "n div 1000"] by (simp add: dec)
    have tk: "take (length (decimal n) - 3) (decimal n) = decimal (n div 1000)"
      by (simp add: dec)
    have dr: "drop (length (decimal n) - 3) (decimal n) = ?last3"
      by (simp add: dec)
    have "group_thousands (decimal n) =
        group_thousands (decimal (n div 1000)) @ '','' @ ?last3"
      using len by (subst group_thousands.simps) (simp only: tk dr if_False)
    also have "group_thousands (decimal (n div 1000)) = thousands_grouped (n div 1000)"
      using False by (rule "1.IH")
    finally show ?thesis
      using False by (subst thousands_grouped.simps) simp
  qed
qed

lemma digit_value_digit_char: "d < 10 \<Longrightarrow> digit_value (digit_char d) = d"
proof -
  assume "d < 10"
  then consider "d = 0" | "d = 1" | "d = 2" | "d = 3" | "d = 4" | "d = 5" | "d = 6" | "d = 7"
    | "d = 8" | "d = 9" by atomize_elim arith
  then show ?thesis
    by cases (simp_all add: digit_value_def digit_char_def)
qed

lemma digit_char_in_digits: "digit_char d \<in> set ''0123456789''"
proof -
  have "d mod 10 < length ''0123456789''" by simp
  then show ?thesis unfolding digit_char_def by (rule nth_mem)
qed

lemma set_decimal: "set (decimal n) \<subseteq> set ''0123456789''"
proof (induction n rule: decimal.induct)
  case (1 n)
  show ?case
  proof (cases "n < 10")
    case True
    then have "decimal n = [digit_char n]" by (subst decimal.simps) simp
    then show ?thesis using digit_char_in_digits [of n] by simp
  next
    case False
    then have "decimal n = decimal (n div 10) @ [digit_char (n mod 10)]"
      by (subst decimal.simps) simp
    then show ?thesis
      using "1.IH" [OF False] digit_char_in_digits [of "n mod 10"] by simp
  qed
qed

lemma digits_value_snoc: "digits_value (ds @ [c]) = 10 * digits_value ds + digit_value c"
  by (simp add: digits_value_def)

lemma digits_value_decimal: "digits_value (decimal n) = n"
proof (induction n rule: decimal.induct)
  case (1 n)
  show ?case
  proof (cases "n < 10")
    case True
    then have "decimal n = [digit_char n]" by (subst decimal.simps) simp
    with True show ?thesis
      by (simp add: digits_value_def digit_value_digit_char)
  next
    case False
    then have "decimal n = decimal (n div 10) @ [digit_char (n mod 10)]"
      by (subst decimal.simps) simp
    then show ?thesis
      using "1.IH" [OF False] by (simp add: digits_value_snoc digit_value_digit_char)
  qed
qed


lemma format_f1_shape:
  "\<exists>ip d. format_f1 x = (if x < 0 then ''-'' else []) @ ip @ ''.'' @ [d] \<and>
      set (ip @ [d]) \<subseteq> set ''0123456789'' \<and>
      int (digits_value (ip @ [d])) = round_half_even (\<bar>x\<bar> * 10)"
proof -
  let ?t = "nat (round_half_even (\<bar>x\<bar> * 10))"
  let ?ip = "decimal (?t div 10)"
  let ?d = "digit_char (?t mod 10)"
  have shape: "format_f1 x = (if x < 0 then ''-'' else []) @ ?ip @ ''.'' @ [?d]"
    by (simp add: format_f1_def Let_def)
  have digits: "set (?ip @ [?d]) \<subseteq> set ''0123456789''"
    using set_decimal [of "?t div 10"] digit_char_in_digits [of "?t mod 10"] by simp
  have "digits_value (?ip @ [?d]) = 10 * (?t div 10) + ?t mod 10"
    by (simp add: digits_value_snoc digits_value_decimal digit_value_digit_char)
  then have "digits_value (?ip @ [?d]) = ?t" by simp
  moreover have "0 \<le> round_half_even (\<bar>x\<bar> * 10)"
    by (rule round_half_even_nonneg) simp
  ultimately have val: "int (digits_value (?ip @ [?d])) = round_half_even (\<bar>x\<bar> * 10)"
    by simp
  from shape digits val show ?thesis by blast
qed

text \<open>
  C8. A missing value is shown as \<open>N/A\<close> for both kinds. An integer metric is shown
  with thousands grouping, 1234567 as \<open>1,234,567\<close>. A percentage is shown with one
  digit after the point, the digits being those of ten times the value rounded to the
  nearest integer, a tie going to the even one; 87.25 is shown as \<open>87.2\<close>.
\<close>

theorem format_metric_correct:
  "formatMetric None kind = ''N/A'' \<and>
   formatMetric (Some 1234567) Integer_Kind = ''1,234,567'' \<and>
   formatMetric (Some x) Integer_Kind =
     (if int_of_float x < 0 then ''-'' else []) @ thousands_grouped (nat \<bar>int_of_float x\<bar>) \<and>
   formatMetric (Some (349 / 4)) Percentage_Kind = ''87.2'' \<and>
   (\<exists>ip d. formatMetric (Some x) Percentage_Kind = (if x < 0 then ''-'' else []) @ ip @ ''.'' @ [d] \<and>
       set (ip @ [d]) \<subseteq> set ''0123456789'' \<and>
       int (digits_value (ip @ [d])) = round_half_even (\<bar>x\<bar> * 10)) \<and>
   (\<bar>of_int (round_half_even (\<bar>x\<bar> * 10)) - \<bar>x\<bar> * 10\<bar> < 1 / 2 \<or>
    \<bar>of_int (round_half_even (\<bar>x\<bar> * 10)) - \<bar>x\<bar> * 10\<bar> = 1 / 2 \<and>
      even (round_half_even (\<bar>x\<bar> * 10)))"
proof -
  have na: "formatMetric None kind = ''N/A''"
    by (cases kind) (simp_all add: formatMetric_def)
  have grouped: "formatMetric (Some x) Integer_Kind =
     (if int_of_float x < 0 then ''-'' else []) @ thousands_grouped (nat \<bar>int_of_float x\<bar>)"
    by (simp add: formatMetric_def format_int_comma_def group_thousands_decimal)
  have pct: "\<exists>ip d. formatMetric (Some x) Percentage_Kind =
       (if x < 0 then ''-'' else []) @ ip @ ''.'' @ [d] \<and>
       set (ip @ [d]) \<subseteq> set ''0123456789'' \<and>
       int (digits_value (ip @ [d])) = round_half_even (\<bar>x\<bar> * 10)"
    using format_f1_shape [of x] by (simp add: formatMetric_def)
  from na format_integer_example grouped format_percentage_example pct round_half_even_nearest [of "\<bar>x\<bar> * 10"]
  show ?thesis by (intro conjI)
qed

end
